theory Spec2Isabelle
  imports Complex_Main "HOL-Library.Multiset" "HOL-Library.Char_ord" "HOL-Library.List_Lexorder"
begin

section \<open>Emergency detector\<close>

text \<open>
  The fixed list \<^verbatim>\<open>EMERGENCY_SYMPTOMS\<close> of \<^verbatim>\<open>dhyanee.py\<close>, in source order.
\<close>

definition EMERGENCY_SYMPTOMS :: "string list" where
  "EMERGENCY_SYMPTOMS =
    [''trouble breathing'', ''shortness of breath'', ''difficulty breathing'',
     ''chest pain'', ''pressure in chest'', ''sudden confusion'',
     ''loss of consciousness'', ''unresponsiveness'', ''bluish lips'', ''bluish face'',
     ''severe bleeding'', ''severe head injury'', ''sudden severe weakness on one side'']"

text \<open>
  Python's \<^verbatim>\<open>x in y\<close> on two strings: \<^verbatim>\<open>x\<close> occurs in \<^verbatim>\<open>y\<close> as a contiguous block.
  \<open>startswith y x\<close> says that \<open>y\<close> begins with \<open>x\<close>; \<open>str_in x y\<close> tries every
  start position of \<open>y\<close> from the left, the end of the string included (so the
  empty string occurs in every string).
\<close>

fun startswith :: "'a list \<Rightarrow> 'a list \<Rightarrow> bool" where
  "startswith ys [] = True"
| "startswith [] (x # xs) = False"
| "startswith (y # ys) (x # xs) = (y = x \<and> startswith ys xs)"

fun str_in :: "'a list \<Rightarrow> 'a list \<Rightarrow> bool" where
  "str_in x [] = (x = [])"
| "str_in x (c # cs) = (startswith (c # cs) x \<or> str_in x cs)"

text \<open>
  The specification's notion of substring, written without reference to the search:
  \<open>x\<close> is a substring of \<open>y\<close> when \<open>y\<close> is \<open>x\<close> with something before and after it.
\<close>

definition is_substring :: "'a list \<Rightarrow> 'a list \<Rightarrow> bool" where
  "is_substring x y = (\<exists>p q. y = p @ x @ q)"

text \<open>
  The two nested loops of \<^verbatim>\<open>detect_emergency\<close>, with the list \<^verbatim>\<open>found\<close> passed along:
  the inner loop runs over the emergency terms for one user symptom \<open>s\<close>, the outer
  loop over the user symptoms.
\<close>

fun found_inner :: "string \<Rightarrow> string list \<Rightarrow> string list \<Rightarrow> string list" where
  "found_inner s [] found = found"
| "found_inner s (em # ems) found =
     found_inner s ems (if str_in em s \<or> str_in s em then found @ [em] else found)"

fun found_outer :: "string list \<Rightarrow> string list \<Rightarrow> string list" where
  "found_outer [] found = found"
| "found_outer (s # ss) found = found_outer ss (found_inner s EMERGENCY_SYMPTOMS found)"

text \<open>
  \<^verbatim>\<open>list(set(found))\<close> keeps one copy of every element of \<^verbatim>\<open>found\<close>. Python leaves
  the order of the resulting list to the hash order of the set; the model lists the
  elements with \<open>remdups\<close>, and every statement below reads the result through
  \<open>set\<close> and \<open>distinct\<close> only, which do not depend on that order.
\<close>

definition detect_emergency :: "string list \<Rightarrow> string list" where
  "detect_emergency user_symptoms = remdups (found_outer user_symptoms [])"


section \<open>Condition catalog\<close>

text \<open>
  \<^verbatim>\<open>DISEASE_DB\<close>: a dictionary from condition name to its entry, kept as an association
  list in the dictionary's insertion order (the order in which \<^verbatim>\<open>.items()\<close> and
  \<^verbatim>\<open>.values()\<close> iterate). Of each entry only the list under the key \<^verbatim>\<open>"symptoms"\<close>
  is kept: \<^verbatim>\<open>"advice"\<close> and \<^verbatim>\<open>"notes"\<close> are read by the page rendering alone.
\<close>

definition DISEASE_DB :: "(string \<times> string list) list" where
  "DISEASE_DB =
    [(''Common Cold'',
        [''sneezing'', ''runny nose'', ''stuffy nose'', ''sore throat'', ''mild cough'',
         ''mild fever'']),
     (''Influenza (Flu)'',
        [''fever'', ''chills'', ''body aches'', ''fatigue'', ''headache'', ''dry cough'',
         ''sore throat'']),
     (''COVID-19 (possible)'',
        [''fever'', ''dry cough'', ''loss of taste'', ''loss of smell'',
         ''shortness of breath'', ''fatigue'', ''sore throat'']),
     (''Migraine'',
        [''headache'', ''throbbing headache'', ''nausea'', ''sensitivity to light'',
         ''sensitivity to sound'']),
     (''General Headache'',
        [''mild headache'', ''tension headache'', ''head pain'', ''stress headache'']),
     (''Muscle or Body Pain'',
        [''muscle pain'', ''body aches'', ''back pain'', ''neck pain'', ''joint pain'']),
     (''Stomachache'',
        [''stomach pain'', ''abdominal pain'', ''bloating'', ''indigestion'']),
     (''Urinary Tract Infection (UTI)'',
        [''painful urination'', ''burning urination'', ''frequent urination'',
         ''lower abdominal pain'', ''cloudy urine'']),
     (''Gastroenteritis / Food Poisoning'',
        [''nausea'', ''vomiting'', ''diarrhea'', ''stomach cramps'', ''fever'']),
     (''Allergic Rhinitis (Allergy)'',
        [''sneezing'', ''itchy eyes'', ''runny nose'', ''watery eyes'', ''nasal congestion''])]"


section \<open>The library calls of the matcher\<close>

text \<open>
  \<^verbatim>\<open>match_symptoms\<close> calls \<^verbatim>\<open>TfidfVectorizer\<close> and \<^verbatim>\<open>cosine_similarity\<close> of
  scikit-learn and \<^verbatim>\<open>max\<close> and \<^verbatim>\<open>argmax\<close> of NumPy, all with their default
  parameters. They are written out here as they behave on these calls, with real
  numbers in the place of 64-bit floats. A character is read as the code point of
  that number (Latin-1); the errors are the exceptions the calls can raise.
\<close>

datatype error = ValueError | IndexError

text \<open>
  The default analyzer: lower-case the document, then take every match of the pattern
  \<^verbatim>\<open>(?u)\b\w\w+\b\<close>, that is every maximal run of word characters that is at least
  two characters long.
\<close>

definition is_word_char :: "char \<Rightarrow> bool" where
  "is_word_char c =
     (let n = (of_char c :: nat) in
        (0x30 \<le> n \<and> n \<le> 0x39) \<or> (0x41 \<le> n \<and> n \<le> 0x5A) \<or> n = 0x5F \<or>
        (0x61 \<le> n \<and> n \<le> 0x7A) \<or> n = 0xAA \<or> n = 0xB2 \<or> n = 0xB3 \<or> n = 0xB5 \<or>
        n = 0xB9 \<or> n = 0xBA \<or> (0xBC \<le> n \<and> n \<le> 0xBE) \<or> (0xC0 \<le> n \<and> n \<le> 0xD6) \<or>
        (0xD8 \<le> n \<and> n \<le> 0xF6) \<or> 0xF8 \<le> n)"

definition lower_char :: "char \<Rightarrow> char" where
  "lower_char c =
     (let n = (of_char c :: nat) in
        if (0x41 \<le> n \<and> n \<le> 0x5A) \<or> (0xC0 \<le> n \<and> n \<le> 0xD6) \<or> (0xD8 \<le> n \<and> n \<le> 0xDE)
        then char_of (n + 32) else c)"

definition lower :: "string \<Rightarrow> string" where
  "lower s = map lower_char s"

fun word_runs :: "string \<Rightarrow> string \<Rightarrow> string list" where
  "word_runs cur [] = (if cur = [] then [] else [cur])"
| "word_runs cur (c # cs) =
     (if is_word_char c then word_runs (cur @ [c]) cs
      else (if cur = [] then [] else [cur]) @ word_runs [] cs)"

definition analyze :: "string \<Rightarrow> string list" where
  "analyze doc = filter (\<lambda>w. 2 \<le> length w) (word_runs [] (lower doc))"

text \<open>
  A fitted vectorizer: the vocabulary (the distinct tokens of the corpus, sorted) and
  one inverse-document-frequency weight per vocabulary entry,
  \<open>ln ((1 + n) / (1 + df t)) + 1\<close> for \<open>n\<close> documents of which \<open>df t\<close> contain \<open>t\<close>.
  Fitting raises \<open>ValueError\<close> when the corpus has no token at all.
\<close>

record vectorizer =
  vocabulary :: "string list"
  idf :: "real list"

definition document_frequency :: "string list list \<Rightarrow> string \<Rightarrow> nat" where
  "document_frequency docs t = length (filter (\<lambda>d. t \<in> set d) docs)"

definition fit :: "string list \<Rightarrow> error + vectorizer" where
  "fit raw_documents =
     (let docs = map analyze raw_documents;
          vocab = sort (remdups (concat docs))
      in if vocab = [] then Inl ValueError
         else Inr \<lparr>vocabulary = vocab,
                   idf = map (\<lambda>t. ln ((1 + real (length docs)) /
                                       (1 + real (document_frequency docs t))) + 1) vocab\<rparr>)"

text \<open>
  \<open>normalize_l2\<close> divides a row by its Euclidean norm and leaves a zero row as it is.
  \<open>transform\<close> counts each vocabulary entry in each document (tokens outside the
  vocabulary are dropped), scales the counts by the weights and normalises each row.
\<close>

definition normalize_l2 :: "real list \<Rightarrow> real list" where
  "normalize_l2 row =
     (let n = sqrt (sum_list (map (\<lambda>x. x * x) row))
      in if n = 0 then row else map (\<lambda>x. x / n) row)"

definition tfidf_row :: "vectorizer \<Rightarrow> string \<Rightarrow> real list" where
  "tfidf_row v doc =
     normalize_l2 (map (\<lambda>(t, w). real (count_list (analyze doc) t) * w)
                       (zip (vocabulary v) (idf v)))"

definition transform :: "vectorizer \<Rightarrow> string list \<Rightarrow> real list list" where
  "transform v raw_documents = map (tfidf_row v) raw_documents"

text \<open>
  \<open>cosine_similarity X Y\<close>: both matrices are checked (at least one row, at least one
  column, equally many columns), their rows are normalised again, and entry \<open>(i, j)\<close> of
  the result is the dot product of row \<open>i\<close> of \<open>X\<close> with row \<open>j\<close> of \<open>Y\<close>.
\<close>

definition dot :: "real list \<Rightarrow> real list \<Rightarrow> real" where
  "dot x y = sum_list (map (\<lambda>(a, b). a * b) (zip x y))"

definition shape_error :: "real list list \<Rightarrow> real list list \<Rightarrow> bool" where
  "shape_error X Y =
     (X = [] \<or> Y = [] \<or>
      list_ex (\<lambda>x. list_ex (\<lambda>y. length x = 0 \<or> length x \<noteq> length y) Y) X)"

definition cosine_similarity :: "real list list \<Rightarrow> real list list \<Rightarrow> error + real list list" where
  "cosine_similarity X Y =
     (if shape_error X Y then Inl ValueError
      else Inr (map (\<lambda>x. map (\<lambda>y. dot (normalize_l2 x) (normalize_l2 y)) Y) X))"

text \<open>
  \<open>np_max\<close> and \<open>np_argmax\<close> work on the flattened array: the largest entry, and the
  position of its first occurrence. Both raise \<open>ValueError\<close> on an empty array.
  \<open>getitem\<close> is list indexing with a non-negative index.
\<close>

fun np_max :: "real list list \<Rightarrow> error + real" where
  "np_max a = (case concat a of [] \<Rightarrow> Inl ValueError | x # xs \<Rightarrow> Inr (fold max xs x))"

fun argmax_from :: "real \<Rightarrow> nat \<Rightarrow> nat \<Rightarrow> real list \<Rightarrow> nat" where
  "argmax_from m best i [] = best"
| "argmax_from m best i (x # xs) =
     (if m < x then argmax_from x i (Suc i) xs else argmax_from m best (Suc i) xs)"

fun np_argmax :: "real list list \<Rightarrow> error + nat" where
  "np_argmax a = (case concat a of [] \<Rightarrow> Inl ValueError | x # xs \<Rightarrow> Inr (argmax_from x 0 1 xs))"

definition getitem :: "'a list \<Rightarrow> nat \<Rightarrow> error + 'a" where
  "getitem xs i = (if i < length xs then Inr (xs ! i) else Inl IndexError)"


section \<open>Symptom matcher\<close>

text \<open>
  The value stored per condition: \<^verbatim>\<open>{"score": score, "matched": matched_symptoms}\<close>.
\<close>

record match_result =
  score :: int
  matched :: "string list"

text \<open>
  The inner loop of \<^verbatim>\<open>match_symptoms\<close> over the user symptoms, for one condition with
  reference symptoms \<open>symptoms\<close>; \<open>acc\<close> holds \<^verbatim>\<open>score\<close> and \<^verbatim>\<open>matched_symptoms\<close>.
\<close>

fun score_loop ::
  "vectorizer \<Rightarrow> real \<Rightarrow> string list \<Rightarrow> string list \<Rightarrow> match_result \<Rightarrow> error + match_result"
where
  "score_loop v threshold symptoms [] acc = Inr acc"
| "score_loop v threshold symptoms (us # rest) acc =
     (let vec_user = transform v [us];
          vec_known = transform v symptoms
      in case cosine_similarity vec_user vec_known of
           Inl e \<Rightarrow> Inl e
         | Inr sims \<Rightarrow>
            (case np_max sims of
               Inl e \<Rightarrow> Inl e
             | Inr max_sim \<Rightarrow>
                if max_sim \<ge> threshold then
                  (case np_argmax sims of
                     Inl e \<Rightarrow> Inl e
                   | Inr i \<Rightarrow>
                      (case getitem symptoms i of
                         Inl e \<Rightarrow> Inl e
                       | Inr s \<Rightarrow>
                          score_loop v threshold symptoms rest
                            (acc\<lparr>score := score acc + 1, matched := matched acc @ [s]\<rparr>)))
                else score_loop v threshold symptoms rest acc))"

text \<open>
  \<^verbatim>\<open>matched[disease] = ...\<close> on a dictionary kept in insertion order: an existing key
  keeps its place, a new key goes to the end.
\<close>

fun dict_set :: "('k \<times> 'v) list \<Rightarrow> 'k \<Rightarrow> 'v \<Rightarrow> ('k \<times> 'v) list" where
  "dict_set [] k v = [(k, v)]"
| "dict_set ((k', v') # kvs) k v =
     (if k' = k then (k, v) # kvs else (k', v') # dict_set kvs k v)"

text \<open>The outer loop over the items of the catalog.\<close>

fun disease_loop ::
  "vectorizer \<Rightarrow> real \<Rightarrow> string list \<Rightarrow> (string \<times> string list) list \<Rightarrow>
   (string \<times> match_result) list \<Rightarrow> error + (string \<times> match_result) list"
where
  "disease_loop v threshold user_symptoms [] results = Inr results"
| "disease_loop v threshold user_symptoms ((disease, symptoms) # db) results =
     (case score_loop v threshold symptoms user_symptoms \<lparr>score = 0, matched = []\<rparr> of
        Inl e \<Rightarrow> Inl e
      | Inr r \<Rightarrow> disease_loop v threshold user_symptoms db (dict_set results disease r))"

definition match_symptoms ::
  "string list \<Rightarrow> real \<Rightarrow> error + (string \<times> match_result) list"
where
  "match_symptoms user_symptoms threshold =
     (let all_known_symptoms = concat (map snd DISEASE_DB)
      in case fit (all_known_symptoms @ user_symptoms) of
           Inl e \<Rightarrow> Inl e
         | Inr v \<Rightarrow> disease_loop v threshold user_symptoms DISEASE_DB [])"

text \<open>
  The ranking of the page:
  \<^verbatim>\<open>sorted(results.items(), key=lambda x: x[1]["score"], reverse=True)\<close>.
  Python sorts in reverse by reversing the list, sorting it stably in ascending order
  of the key, and reversing the result.
\<close>

definition sorted_results :: "(string \<times> match_result) list \<Rightarrow> (string \<times> match_result) list" where
  "sorted_results results = rev (sort_key (\<lambda>x. score (snd x)) (rev results))"

text \<open>
  Names for what one pass of the inner loop computes for a user symptom \<open>us\<close>: the row
  of similarities to the reference symptoms, its maximum, and the reference symptom at
  the first position where the maximum is reached.
\<close>

definition sims_row :: "vectorizer \<Rightarrow> string list \<Rightarrow> string \<Rightarrow> real list" where
  "sims_row v symptoms us =
     map (\<lambda>r. dot (normalize_l2 (tfidf_row v us)) (normalize_l2 (tfidf_row v r))) symptoms"

definition max_sim_of :: "vectorizer \<Rightarrow> string list \<Rightarrow> string \<Rightarrow> real" where
  "max_sim_of v symptoms us = fold max (tl (sims_row v symptoms us)) (hd (sims_row v symptoms us))"

definition best_match_of :: "vectorizer \<Rightarrow> string list \<Rightarrow> string \<Rightarrow> string" where
  "best_match_of v symptoms us =
     symptoms ! argmax_from (hd (sims_row v symptoms us)) 0 1 (tl (sims_row v symptoms us))"


text \<open>
  The value the inner loop arrives at for one condition, started from score 0 and an
  empty list (lemma \<open>score_loop_eq\<close> below): the number of user symptoms whose maximal
  similarity reaches the threshold, and their best matches in input order.
\<close>

definition result_of :: "vectorizer \<Rightarrow> real \<Rightarrow> string list \<Rightarrow> string list \<Rightarrow> match_result" where
  "result_of v threshold user_symptoms symptoms =
     \<lparr>score = int (length (filter (\<lambda>us. threshold \<le> max_sim_of v symptoms us) user_symptoms)),
      matched = map (best_match_of v symptoms)
                    (filter (\<lambda>us. threshold \<le> max_sim_of v symptoms us) user_symptoms)\<rparr>"


text \<open>
  A user symptom shares no token with the catalog when none of its tokens occurs among
  the tokens of any reference symptom; a string without tokens is the extreme case.
\<close>

definition shares_no_token :: "string \<Rightarrow> bool" where
  "shares_no_token us =
     list_all (\<lambda>r. list_all (\<lambda>t. t \<notin> set (analyze r)) (analyze us)) (concat (map snd DISEASE_DB))"


section \<open>Properties of the emergency detector\<close>

lemma startswith_iff: "startswith y x \<longleftrightarrow> (\<exists>q. y = x @ q)"
  by (induction y x rule: startswith.induct) auto

lemma str_in_iff: "str_in x y \<longleftrightarrow> is_substring x y"
proof (induction y)
  case Nil
  show ?case by (simp add: is_substring_def)
next
  case (Cons c cs)
  have "is_substring x (c # cs) \<longleftrightarrow> (\<exists>q. c # cs = x @ q) \<or> is_substring x cs"
  proof
    assume "is_substring x (c # cs)"
    then obtain p q where pq: "c # cs = p @ x @ q"
      by (auto simp: is_substring_def)
    show "(\<exists>q. c # cs = x @ q) \<or> is_substring x cs"
    proof (cases p)
      case Nil
      with pq show ?thesis by auto
    next
      case (Cons a p')
      with pq have "cs = p' @ x @ q" by simp
      then show ?thesis by (auto simp: is_substring_def)
    qed
  next
    assume "(\<exists>q. c # cs = x @ q) \<or> is_substring x cs"
    then show "is_substring x (c # cs)"
    proof
      assume "\<exists>q. c # cs = x @ q"
      then obtain q where "c # cs = [] @ x @ q" by auto
      then show ?thesis unfolding is_substring_def by blast
    next
      assume "is_substring x cs"
      then obtain p q where "cs = p @ x @ q" by (auto simp: is_substring_def)
      then have "c # cs = (c # p) @ x @ q" by simp
      then show ?thesis unfolding is_substring_def by blast
    qed
  qed
  with Cons show ?case by (simp add: startswith_iff)
qed

lemma found_inner_eq:
  "found_inner s ems found = found @ filter (\<lambda>em. str_in em s \<or> str_in s em) ems"
  by (induction ems arbitrary: found) auto

lemma found_outer_eq:
  "found_outer ss found =
     found @ concat (map (\<lambda>s. filter (\<lambda>em. str_in em s \<or> str_in s em) EMERGENCY_SYMPTOMS) ss)"
  by (induction ss arbitrary: found) (auto simp: found_inner_eq)

lemma set_detect_emergency:
  "set (detect_emergency us) =
     {e. e \<in> set EMERGENCY_SYMPTOMS \<and> (\<exists>s. s \<in> set us \<and> (str_in e s \<or> str_in s e))}"
  by (auto simp: detect_emergency_def found_outer_eq)

text \<open>
  Claim C1 (as amended). The claim says that the user symptom "pain" does not trigger
  the emergency term "chest pain". It does: "pain" occurs in "chest pain", so the test
  \<^verbatim>\<open>s in em\<close> succeeds. Whenever the input list contains "pain", the result of
  \<open>detect_emergency\<close> contains "chest pain".
\<close>

theorem pain_triggers_chest_pain:
  "''pain'' \<in> set us \<Longrightarrow> ''chest pain'' \<in> set (detect_emergency us)"
proof -
  assume "''pain'' \<in> set us"
  moreover have "str_in ''pain'' ''chest pain''" by simp
  moreover have "''chest pain'' \<in> set EMERGENCY_SYMPTOMS"
    by (simp add: EMERGENCY_SYMPTOMS_def)
  ultimately show ?thesis
    unfolding set_detect_emergency by blast
qed

theorem pain_triggers_chest_pain_witness:
  "''pain'' \<in> set [''fever'', ''pain''] \<and>
   ''chest pain'' \<in> set (detect_emergency [''fever'', ''pain''])"
  using pain_triggers_chest_pain [of "[''fever'', ''pain'']"] by simp

text \<open>
  Counterexample to claim C1 as stated: "pain" is a substring of "chest pain", and on
  the input list holding just "pain" the detector returns "chest pain".
\<close>

theorem pain_counterexample:
  "str_in ''pain'' ''chest pain'' \<and> ''chest pain'' \<in> set (detect_emergency [''pain''])"
  by (simp add: detect_emergency_def EMERGENCY_SYMPTOMS_def)

text \<open>
  Claim C2. For every list of user symptoms, \<open>detect_emergency\<close> returns exactly the
  emergency terms \<open>e\<close> of the fixed list for which some user symptom \<open>s\<close> has \<open>e\<close>
  a substring of \<open>s\<close> or \<open>s\<close> a substring of \<open>e\<close>; no term is reported twice, and
  every reported term is an element of the fixed list.
\<close>

theorem detect_emergency_exact:
  "set (detect_emergency us) =
     {e. e \<in> set EMERGENCY_SYMPTOMS \<and>
         (\<exists>s. s \<in> set us \<and> (is_substring e s \<or> is_substring s e))}
   \<and> distinct (detect_emergency us)
   \<and> set (detect_emergency us) \<subseteq> set EMERGENCY_SYMPTOMS"
proof (intro conjI)
  show "set (detect_emergency us) =
     {e. e \<in> set EMERGENCY_SYMPTOMS \<and>
         (\<exists>s. s \<in> set us \<and> (is_substring e s \<or> is_substring s e))}"
    by (simp add: set_detect_emergency str_in_iff)
  show "distinct (detect_emergency us)"
    by (simp add: detect_emergency_def)
  show "set (detect_emergency us) \<subseteq> set EMERGENCY_SYMPTOMS"
    by (auto simp: set_detect_emergency)
qed

theorem detect_emergency_exact_witness:
  "set (detect_emergency [''chest pain'', ''fever'']) = {''chest pain''}
   \<and> distinct (detect_emergency [''chest pain'', ''fever''])"
proof -
  have "set (detect_emergency [''chest pain'', ''fever'']) = {''chest pain''}"
    by (simp add: detect_emergency_def EMERGENCY_SYMPTOMS_def)
  then show ?thesis
    using detect_emergency_exact [of "[''chest pain'', ''fever'']"] by simp
qed

text \<open>
  Claim C9. If some user symptom is the empty string, \<open>detect_emergency\<close> returns the
  whole fixed list as its triggered set: the empty string occurs in every term.
\<close>

theorem empty_symptom_triggers_all:
  "'''' \<in> set us \<Longrightarrow> set (detect_emergency us) = set EMERGENCY_SYMPTOMS"
proof -
  assume e: "'''' \<in> set us"
  have "str_in '''' em" for em :: string
    by (cases em) simp_all
  with e show ?thesis
    unfolding set_detect_emergency by blast
qed

theorem empty_symptom_triggers_all_witness:
  "'''' \<in> set [''fever'', ''''] \<and>
   set (detect_emergency [''fever'', '''']) = set EMERGENCY_SYMPTOMS"
  using empty_symptom_triggers_all [of "[''fever'', '''']"] by simp

text \<open>
  Claim C10. The detector is monotone in its input: the terms triggered by \<open>xs\<close> are
  among the terms triggered by \<open>xs @ ys\<close>.
\<close>

theorem detect_emergency_mono:
  "set (detect_emergency xs) \<subseteq> set (detect_emergency (xs @ ys))"
  unfolding set_detect_emergency by auto

theorem detect_emergency_mono_witness:
  "set (detect_emergency [''chest pain'']) \<subseteq> set (detect_emergency [''chest pain'', ''fever''])"
  using detect_emergency_mono [of "[''chest pain'']" "[''fever'']"] by simp


section \<open>Properties of the symptom matcher\<close>

lemma fit_fitted:
  "fit docs = Inr v \<Longrightarrow> vocabulary v \<noteq> [] \<and> length (idf v) = length (vocabulary v)"
  by (auto simp: fit_def Let_def split: if_splits)

lemma analyze_sneezing: "analyze ''sneezing'' = [''sneezing'']"
  by (simp add: analyze_def lower_def lower_char_def is_word_char_def)

lemma fit_catalog: "\<exists>v. fit (concat (map snd DISEASE_DB) @ us) = Inr v"
proof -
  have "''sneezing'' \<in> set (concat (map snd DISEASE_DB))"
    by (simp add: DISEASE_DB_def)
  then have "''sneezing'' \<in> set (concat (map analyze (concat (map snd DISEASE_DB) @ us)))"
    using analyze_sneezing by force
  then have "sort (remdups (concat (map analyze (concat (map snd DISEASE_DB) @ us)))) \<noteq> []"
    by (metis empty_iff empty_set set_remdups set_sort)
  then show ?thesis
    by (simp add: fit_def Let_def)
qed

lemma length_normalize_l2 [simp]: "length (normalize_l2 row) = length row"
  by (simp add: normalize_l2_def Let_def)

lemma length_tfidf_row:
  "length (idf v) = length (vocabulary v) \<Longrightarrow> length (tfidf_row v doc) = length (vocabulary v)"
  by (simp add: tfidf_row_def)


lemma cosine_similarity_row:
  assumes "vocabulary v \<noteq> []" and "length (idf v) = length (vocabulary v)"
    and "symptoms \<noteq> []"
  shows "cosine_similarity (transform v [us]) (transform v symptoms) = Inr [sims_row v symptoms us]"
proof -
  have "[] \<noteq> tfidf_row v d" for d
    using assms length_tfidf_row [of v d] by auto
  then have "\<not> shape_error (transform v [us]) (transform v symptoms)"
    using assms by (simp add: shape_error_def transform_def list_ex_iff length_tfidf_row)
  then show ?thesis
    by (simp add: cosine_similarity_def transform_def sims_row_def)
qed

lemma length_sims_row [simp]: "length (sims_row v symptoms us) = length symptoms"
  by (simp add: sims_row_def)

lemma np_max_row:
  "symptoms \<noteq> [] \<Longrightarrow> np_max [sims_row v symptoms us] = Inr (max_sim_of v symptoms us)"
  by (cases "sims_row v symptoms us") (auto simp: max_sim_of_def sims_row_def)

lemma argmax_from_less:
  "best < i \<Longrightarrow> argmax_from m best i xs < i + length xs"
proof (induction xs arbitrary: m best i)
  case Nil
  then show ?case by simp
next
  case (Cons a xs)
  have "argmax_from a i (Suc i) xs < Suc i + length xs"
    by (rule Cons.IH) simp
  moreover have "argmax_from m best (Suc i) xs < Suc i + length xs"
    by (rule Cons.IH) (use Cons.prems in simp)
  ultimately show ?case by simp
qed

lemma np_argmax_row:
  "symptoms \<noteq> [] \<Longrightarrow> \<exists>i. np_argmax [sims_row v symptoms us] = Inr i \<and> i < length symptoms
      \<and> symptoms ! i = best_match_of v symptoms us"
proof -
  assume ne: "symptoms \<noteq> []"
  then obtain x xs where row: "sims_row v symptoms us = x # xs"
    by (cases "sims_row v symptoms us") (auto simp: sims_row_def)
  have "argmax_from x 0 1 xs < 1 + length xs"
    by (rule argmax_from_less) simp
  moreover have "length symptoms = 1 + length xs"
    using row length_sims_row [of v symptoms us] by simp
  ultimately show ?thesis
    using row by (simp add: best_match_of_def)
qed

lemma score_loop_eq:
  assumes "vocabulary v \<noteq> []" and "length (idf v) = length (vocabulary v)"
    and "symptoms \<noteq> []"
  shows "score_loop v threshold symptoms user_symptoms acc =
     Inr (acc\<lparr>score := score acc +
                 int (length (filter (\<lambda>us. threshold \<le> max_sim_of v symptoms us) user_symptoms)),
              matched := matched acc @
                 map (best_match_of v symptoms)
                     (filter (\<lambda>us. threshold \<le> max_sim_of v symptoms us) user_symptoms)\<rparr>)"
proof (induction user_symptoms arbitrary: acc)
  case Nil
  show ?case by simp
next
  case (Cons us rest)
  obtain i where i: "np_argmax [sims_row v symptoms us] = Inr i" "i < length symptoms"
      "symptoms ! i = best_match_of v symptoms us"
    using np_argmax_row [OF assms(3)] by blast
  show ?case
    using assms i Cons.IH
    by (simp add: cosine_similarity_row np_max_row getitem_def del: np_max.simps np_argmax.simps)
qed



lemma dict_set_fresh: "k \<notin> fst ` set kvs \<Longrightarrow> dict_set kvs k v = kvs @ [(k, v)]"
  by (induction kvs) auto

lemma disease_loop_eq:
  assumes "vocabulary v \<noteq> []" and "length (idf v) = length (vocabulary v)"
  shows "[] \<notin> snd ` set db \<Longrightarrow> distinct (map fst db) \<Longrightarrow>
         fst ` set results \<inter> fst ` set db = {} \<Longrightarrow>
         disease_loop v threshold user_symptoms db results =
           Inr (results @ map (\<lambda>(d, symptoms). (d, result_of v threshold user_symptoms symptoms)) db)"
proof (induction db arbitrary: results)
  case Nil
  show ?case by simp
next
  case (Cons entry db)
  obtain d symptoms where entry: "entry = (d, symptoms)" by (cases entry)
  from Cons.prems entry have ne: "symptoms \<noteq> []" by auto
  from Cons.prems entry have fresh: "d \<notin> fst ` set results" by auto
  have step: "score_loop v threshold symptoms user_symptoms \<lparr>score = 0, matched = []\<rparr> =
      Inr (result_of v threshold user_symptoms symptoms)"
    by (simp add: score_loop_eq [OF assms ne] result_of_def)
  have "disease_loop v threshold user_symptoms db (results @ [(d, result_of v threshold user_symptoms symptoms)]) =
      Inr ((results @ [(d, result_of v threshold user_symptoms symptoms)]) @
           map (\<lambda>(d, symptoms). (d, result_of v threshold user_symptoms symptoms)) db)"
  proof (rule Cons.IH)
    show "[] \<notin> snd ` set db" using Cons.prems by auto
    show "distinct (map fst db)" using Cons.prems by simp
    show "fst ` set (results @ [(d, result_of v threshold user_symptoms symptoms)]) \<inter> fst ` set db = {}"
      using Cons.prems entry by auto
  qed
  then show ?case
    by (simp add: entry step dict_set_fresh [OF fresh])
qed

lemma catalog_wf: "[] \<notin> snd ` set DISEASE_DB \<and> distinct (map fst DISEASE_DB)"
  by (simp add: DISEASE_DB_def)

lemma match_symptoms_eq:
  assumes "fit (concat (map snd DISEASE_DB) @ user_symptoms) = Inr v"
  shows "match_symptoms user_symptoms threshold =
     Inr (map (\<lambda>(d, symptoms). (d, result_of v threshold user_symptoms symptoms)) DISEASE_DB)"
proof -
  have f: "vocabulary v \<noteq> []" "length (idf v) = length (vocabulary v)"
    using fit_fitted [OF assms] by simp_all
  have "disease_loop v threshold user_symptoms DISEASE_DB [] =
     Inr ([] @ map (\<lambda>(d, symptoms). (d, result_of v threshold user_symptoms symptoms)) DISEASE_DB)"
    by (rule disease_loop_eq [OF f]) (simp_all add: catalog_wf)
  then show ?thesis
    using assms by (simp add: match_symptoms_def)
qed


lemma match_symptoms_returns:
  "\<exists>v. fit (concat (map snd DISEASE_DB) @ user_symptoms) = Inr v \<and>
       match_symptoms user_symptoms threshold =
         Inr (map (\<lambda>(d, symptoms). (d, result_of v threshold user_symptoms symptoms)) DISEASE_DB)"
  using fit_catalog [of user_symptoms] match_symptoms_eq by blast

text \<open>
  Claim C3. For every list of user symptoms and every threshold the matcher returns a
  result, and for every condition of the catalog, in catalog order, that result's
  score equals the length of its list of matched reference symptoms: the list holds,
  in input order, one reference symptom (the first one of maximal similarity) for each
  user symptom whose maximal similarity reaches the threshold.
\<close>

theorem score_eq_length_matched:
  "\<exists>v res. fit (concat (map snd DISEASE_DB) @ user_symptoms) = Inr v \<and>
     match_symptoms user_symptoms threshold = Inr res \<and>
     list_all2 (\<lambda>(d, symptoms) (d', r). d' = d \<and> score r = int (length (matched r)) \<and>
                  matched r = map (best_match_of v symptoms)
                     (filter (\<lambda>us. threshold \<le> max_sim_of v symptoms us) user_symptoms))
       DISEASE_DB res"
proof -
  obtain v where v: "fit (concat (map snd DISEASE_DB) @ user_symptoms) = Inr v"
    and m: "match_symptoms user_symptoms threshold =
         Inr (map (\<lambda>(d, symptoms). (d, result_of v threshold user_symptoms symptoms)) DISEASE_DB)"
    using match_symptoms_returns by blast
  have "list_all2 (\<lambda>(d, symptoms) (d', r). d' = d \<and> score r = int (length (matched r)) \<and>
                  matched r = map (best_match_of v symptoms)
                     (filter (\<lambda>us. threshold \<le> max_sim_of v symptoms us) user_symptoms))
       DISEASE_DB (map (\<lambda>(d, symptoms). (d, result_of v threshold user_symptoms symptoms)) DISEASE_DB)"
    by (auto simp: list.rel_map result_of_def intro!: list.rel_refl_strong)
  with v m show ?thesis by blast
qed

theorem score_eq_length_matched_witness:
  "\<exists>v res. fit (concat (map snd DISEASE_DB) @ [''fever'', ''sore throat'']) = Inr v \<and>
     match_symptoms [''fever'', ''sore throat''] (2 / 5) = Inr res \<and>
     list_all2 (\<lambda>(d, symptoms) (d', r). d' = d \<and> score r = int (length (matched r)) \<and>
                  matched r = map (best_match_of v symptoms)
                     (filter (\<lambda>us. 2 / 5 \<le> max_sim_of v symptoms us) [''fever'', ''sore throat'']))
       DISEASE_DB res"
  by (rule score_eq_length_matched)

text \<open>
  Claim C4. For every list of user symptoms and every threshold the matcher returns a
  result for every condition of the catalog, and every score is an integer between
  0 and the number of user symptoms.
\<close>

theorem score_bounds:
  "\<exists>res. match_symptoms user_symptoms threshold = Inr res \<and>
     map fst res = map fst DISEASE_DB \<and>
     list_all (\<lambda>(d, r). 0 \<le> score r \<and> score r \<le> int (length user_symptoms)) res"
proof -
  obtain v where m: "match_symptoms user_symptoms threshold =
         Inr (map (\<lambda>(d, symptoms). (d, result_of v threshold user_symptoms symptoms)) DISEASE_DB)"
    using match_symptoms_returns by blast
  have "map fst (map (\<lambda>(d, symptoms). (d, result_of v threshold user_symptoms symptoms)) DISEASE_DB)
        = map fst DISEASE_DB"
    by (simp add: case_prod_unfold)
  moreover have "list_all (\<lambda>(d, r). 0 \<le> score r \<and> score r \<le> int (length user_symptoms))
        (map (\<lambda>(d, symptoms). (d, result_of v threshold user_symptoms symptoms)) DISEASE_DB)"
    by (auto simp: list_all_iff result_of_def)
  ultimately show ?thesis using m by blast
qed

theorem score_bounds_witness:
  "\<exists>res. match_symptoms [''fever'', ''sore throat''] (2 / 5) = Inr res \<and>
     map fst res = map fst DISEASE_DB \<and>
     list_all (\<lambda>(d, r). 0 \<le> score r \<and> score r \<le> 2) res"
  using score_bounds [of "[''fever'', ''sore throat'']" "2 / 5"] by simp

lemma length_filter_mono:
  "(\<And>x. x \<in> set xs \<Longrightarrow> P x \<Longrightarrow> Q x) \<Longrightarrow> length (filter P xs) \<le> length (filter Q xs)"
  by (induction xs) auto

text \<open>
  Claim C5. Threshold monotonicity: for the same user symptoms and thresholds
  \<open>t1 \<le> t2\<close>, the matcher returns at both thresholds, and every condition's score at
  \<open>t2\<close> is at most its score at \<open>t1\<close>.
\<close>

theorem threshold_monotone:
  "t1 \<le> t2 \<Longrightarrow>
   \<exists>res1 res2. match_symptoms user_symptoms t1 = Inr res1 \<and>
     match_symptoms user_symptoms t2 = Inr res2 \<and>
     list_all2 (\<lambda>(d1, r1) (d2, r2). d2 = d1 \<and> score r2 \<le> score r1) res1 res2"
proof -
  assume le: "t1 \<le> t2"
  obtain v where v: "fit (concat (map snd DISEASE_DB) @ user_symptoms) = Inr v"
    using fit_catalog by blast
  have "length (filter (\<lambda>us. t2 \<le> max_sim_of v symptoms us) user_symptoms)
        \<le> length (filter (\<lambda>us. t1 \<le> max_sim_of v symptoms us) user_symptoms)" for symptoms
    by (rule length_filter_mono) (use le in simp)
  then have "list_all2 (\<lambda>(d1, r1) (d2, r2). d2 = d1 \<and> score r2 \<le> score r1)
     (map (\<lambda>(d, symptoms). (d, result_of v t1 user_symptoms symptoms)) DISEASE_DB)
     (map (\<lambda>(d, symptoms). (d, result_of v t2 user_symptoms symptoms)) DISEASE_DB)"
    by (auto simp: list.rel_map result_of_def intro!: list.rel_refl_strong)
  then show ?thesis
    using match_symptoms_eq [OF v] by simp
qed

theorem threshold_monotone_witness:
  "(2 / 5 :: real) \<le> 7 / 10 \<and>
   (\<exists>res1 res2. match_symptoms [''fever'', ''sore throat''] (2 / 5) = Inr res1 \<and>
     match_symptoms [''fever'', ''sore throat''] (7 / 10) = Inr res2 \<and>
     list_all2 (\<lambda>(d1, r1) (d2, r2). d2 = d1 \<and> score r2 \<le> score r1) res1 res2)"
  using threshold_monotone [of "2 / 5" "7 / 10" "[''fever'', ''sore throat'']"] by simp

text \<open>
  Claim C7. On the empty list of user symptoms and any threshold the matcher raises
  no exception: it returns, for every condition of the catalog, score 0 and an empty
  list of matched reference symptoms.
\<close>

theorem empty_input_scores_zero:
  "match_symptoms [] threshold =
     Inr (map (\<lambda>(d, symptoms). (d, \<lparr>score = 0, matched = []\<rparr>)) DISEASE_DB)"
proof -
  obtain v where "match_symptoms [] threshold =
         Inr (map (\<lambda>(d, symptoms). (d, result_of v threshold [] symptoms)) DISEASE_DB)"
    using match_symptoms_returns by blast
  then show ?thesis by (simp add: result_of_def)
qed

theorem empty_input_scores_zero_witness:
  "match_symptoms [] (2 / 5) =
     Inr [(''Common Cold'', \<lparr>score = 0, matched = []\<rparr>),
          (''Influenza (Flu)'', \<lparr>score = 0, matched = []\<rparr>),
          (''COVID-19 (possible)'', \<lparr>score = 0, matched = []\<rparr>),
          (''Migraine'', \<lparr>score = 0, matched = []\<rparr>),
          (''General Headache'', \<lparr>score = 0, matched = []\<rparr>),
          (''Muscle or Body Pain'', \<lparr>score = 0, matched = []\<rparr>),
          (''Stomachache'', \<lparr>score = 0, matched = []\<rparr>),
          (''Urinary Tract Infection (UTI)'', \<lparr>score = 0, matched = []\<rparr>),
          (''Gastroenteritis / Food Poisoning'', \<lparr>score = 0, matched = []\<rparr>),
          (''Allergic Rhinitis (Allergy)'', \<lparr>score = 0, matched = []\<rparr>)]"
  using empty_input_scores_zero [of "2 / 5"] by (simp add: DISEASE_DB_def)


lemma sorted_results_desc:
  assumes "i < j" and "j < length (sorted_results rs)"
  shows "score (snd (sorted_results rs ! j)) \<le> score (snd (sorted_results rs ! i))"
proof -
  define ys where "ys = sort_key (\<lambda>x. score (snd x)) (rev rs)"
  have sr: "sorted_results rs = rev ys"
    by (simp add: sorted_results_def ys_def)
  have srt: "sorted (map (\<lambda>x. score (snd x)) ys)"
    by (simp add: ys_def)
  have j: "j < length ys" using assms(2) sr by simp
  with assms(1) have i: "i < length ys" by simp
  have "map (\<lambda>x. score (snd x)) ys ! (length ys - Suc j) \<le> map (\<lambda>x. score (snd x)) ys ! (length ys - Suc i)"
    by (rule sorted_nth_mono [OF srt]) (use assms(1) i j in auto)
  then show ?thesis
    using i j by (simp add: sr rev_nth)
qed

lemma sorted_results_stable:
  "filter (\<lambda>x. score (snd x) = k) (sorted_results rs) = filter (\<lambda>x. score (snd x) = k) rs"
proof -
  have "filter (\<lambda>x. score (snd x) = k) (sorted_results rs)
      = rev (filter (\<lambda>x. score (snd x) = k) (sort_key (\<lambda>x. score (snd x)) (rev rs)))"
    by (simp add: sorted_results_def rev_filter)
  also have "\<dots> = rev (filter (\<lambda>x. score (snd x) = k) (rev rs))"
    by (simp only: sort_key_stable)
  also have "\<dots> = filter (\<lambda>x. score (snd x) = k) rs"
    by (simp add: rev_filter)
  finally show ?thesis .
qed

lemma mset_sorted_results: "mset (sorted_results rs) = mset rs"
  by (simp add: sorted_results_def)

text \<open>
  Claim C6. The ranking of a matcher result is sorted by score in descending order
  (entries at positions \<open>i < j\<close> have \<open>score i \<ge> score j\<close>) and the sort is stable:
  the entries of any one score appear in the ranking in the order they have in the
  matcher's result, which is the catalog's order. The ranking is a rearrangement of
  the result.
\<close>

theorem ranking_sorted_stable:
  "\<exists>res. match_symptoms user_symptoms threshold = Inr res \<and>
     map fst res = map fst DISEASE_DB \<and>
     mset (sorted_results res) = mset res \<and>
     (\<forall>i j. i < j \<and> j < length (sorted_results res) \<longrightarrow>
        score (snd (sorted_results res ! i)) \<ge> score (snd (sorted_results res ! j))) \<and>
     (\<forall>k. filter (\<lambda>x. score (snd x) = k) (sorted_results res) =
          filter (\<lambda>x. score (snd x) = k) res)"
proof -
  obtain v where m: "match_symptoms user_symptoms threshold =
         Inr (map (\<lambda>(d, symptoms). (d, result_of v threshold user_symptoms symptoms)) DISEASE_DB)"
    using match_symptoms_returns by blast
  have "map fst (map (\<lambda>(d, symptoms). (d, result_of v threshold user_symptoms symptoms)) DISEASE_DB)
        = map fst DISEASE_DB"
    by (simp add: case_prod_unfold)
  with m show ?thesis
    using sorted_results_desc sorted_results_stable mset_sorted_results by blast
qed

theorem ranking_sorted_stable_witness:
  "\<exists>res. match_symptoms [''fever'', ''sore throat''] (2 / 5) = Inr res \<and>
     length (sorted_results res) = 10 \<and>
     score (snd (sorted_results res ! 0)) \<ge> score (snd (sorted_results res ! 1)) \<and>
     filter (\<lambda>x. score (snd x) = 0) (sorted_results res) = filter (\<lambda>x. score (snd x) = 0) res"
proof -
  obtain res where r: "match_symptoms [''fever'', ''sore throat''] (2 / 5) = Inr res"
     "map fst res = map fst DISEASE_DB"
     "mset (sorted_results res) = mset res"
     "\<forall>i j. i < j \<and> j < length (sorted_results res) \<longrightarrow>
        score (snd (sorted_results res ! i)) \<ge> score (snd (sorted_results res ! j))"
     "\<forall>k. filter (\<lambda>x. score (snd x) = k) (sorted_results res) =
          filter (\<lambda>x. score (snd x) = k) res"
    using ranking_sorted_stable [of "[''fever'', ''sore throat'']" "2 / 5"] by blast
  have "length res = length DISEASE_DB"
    using r(2) by (metis length_map)
  then have "length res = 10" by (simp add: DISEASE_DB_def)
  moreover have "length (sorted_results res) = length res"
    using r(3) by (rule mset_eq_length)
  ultimately have len: "length (sorted_results res) = 10" by simp
  then have "(0::nat) < 1 \<and> 1 < length (sorted_results res)" by simp
  with r(4) have "score (snd (sorted_results res ! 0)) \<ge> score (snd (sorted_results res ! 1))"
    by blast
  with r(1) r(5) len show ?thesis by blast
qed


lemma zero_pattern_normalize:
  assumes "\<forall>(a, b) \<in> set (zip x y). a = 0 \<or> b = 0"
  shows "\<forall>(a, b) \<in> set (zip (normalize_l2 x) (normalize_l2 y)). a = 0 \<or> b = 0"
proof -
  obtain c where c: "normalize_l2 x = map (\<lambda>a. a / c) x"
    by (cases "sqrt (sum_list (map (\<lambda>a. a * a) x)) = 0")
       (auto simp: normalize_l2_def Let_def intro: that [of 1])
  obtain d where d: "normalize_l2 y = map (\<lambda>a. a / d) y"
    by (cases "sqrt (sum_list (map (\<lambda>a. a * a) y)) = 0")
       (auto simp: normalize_l2_def Let_def intro: that [of 1])
  show ?thesis
    using assms unfolding c d by (auto simp: zip_map_map)
qed

lemma sum_list_zeros: "(\<And>r. r \<in> set rs \<Longrightarrow> r = (0::real)) \<Longrightarrow> sum_list rs = 0"
  by (induction rs) auto

lemma dot_zero_pattern:
  assumes "\<forall>(a, b) \<in> set (zip x y). a = 0 \<or> b = 0"
  shows "dot x y = 0"
  unfolding dot_def
  by (rule sum_list_zeros) (use assms in auto)

lemma zip_map_same: "zip (map f zs) (map g zs) = map (\<lambda>z. (f z, g z)) zs"
  by (induction zs) auto

lemma tfidf_zero_pattern:
  assumes "set (analyze us) \<inter> set (analyze r) = {}"
  shows "\<forall>(a, b) \<in> set (zip (tfidf_row v us) (tfidf_row v r)). a = 0 \<or> b = 0"
proof -
  have "\<forall>(a, b) \<in> set (zip
        (map (\<lambda>(t, w). real (count_list (analyze us) t) * w) (zip (vocabulary v) (idf v)))
        (map (\<lambda>(t, w). real (count_list (analyze r) t) * w) (zip (vocabulary v) (idf v)))).
      a = 0 \<or> b = 0"
    using assms by (auto simp: zip_map_same count_list_0_iff disjoint_iff)
  then show ?thesis
    unfolding tfidf_row_def by (rule zero_pattern_normalize)
qed

lemma sims_row_zero:
  assumes "\<forall>r \<in> set symptoms. set (analyze us) \<inter> set (analyze r) = {}"
  shows "sims_row v symptoms us = replicate (length symptoms) 0"
proof -
  have "dot (normalize_l2 (tfidf_row v us)) (normalize_l2 (tfidf_row v r)) = 0"
    if "r \<in> set symptoms" for r
    using that assms
    by (intro dot_zero_pattern zero_pattern_normalize tfidf_zero_pattern) blast
  then have "sims_row v symptoms us = map (\<lambda>r. 0) symptoms"
    unfolding sims_row_def by simp
  then show ?thesis by (simp add: map_replicate_const)
qed

lemma fold_max_zeros: "fold max (replicate n (0::real)) 0 = 0"
  by (induction n) (auto simp del: fold_replicate)

lemma argmax_from_const: "argmax_from m best i (replicate n m) = best"
  by (induction n arbitrary: i) auto

lemma max_sim_zero:
  assumes "symptoms \<noteq> []"
    and "\<forall>r \<in> set symptoms. set (analyze us) \<inter> set (analyze r) = {}"
  shows "max_sim_of v symptoms us = 0"
proof -
  obtain n where n: "length symptoms = Suc n"
    using assms(1) by (cases symptoms) auto
  show ?thesis
    unfolding max_sim_of_def sims_row_zero [OF assms(2)] n
    by (simp add: fold_max_zeros del: fold_replicate)
qed

lemma best_match_zero:
  assumes "symptoms \<noteq> []"
    and "\<forall>r \<in> set symptoms. set (analyze us) \<inter> set (analyze r) = {}"
  shows "best_match_of v symptoms us = hd symptoms"
proof -
  obtain n where n: "length symptoms = Suc n"
    using assms(1) by (cases symptoms) auto
  show ?thesis
    unfolding best_match_of_def sims_row_zero [OF assms(2)] n
    using assms(1) by (simp add: argmax_from_const hd_conv_nth)
qed

lemma shares_no_tokenD:
  "shares_no_token us \<Longrightarrow> (d, symptoms) \<in> set DISEASE_DB \<Longrightarrow>
     \<forall>r \<in> set symptoms. set (analyze us) \<inter> set (analyze r) = {}"
  by (fastforce simp: shares_no_token_def list_all_iff)


lemma shares_no_token_max_sim:
  assumes "shares_no_token us" and "(d, symptoms) \<in> set DISEASE_DB"
  shows "max_sim_of v symptoms us = 0" and "best_match_of v symptoms us = hd symptoms"
proof -
  have ne: "symptoms \<noteq> []"
    using catalog_wf assms(2) by force
  show "max_sim_of v symptoms us = 0"
    by (rule max_sim_zero [OF ne shares_no_tokenD [OF assms]])
  show "best_match_of v symptoms us = hd symptoms"
    by (rule best_match_zero [OF ne shares_no_tokenD [OF assms]])
qed

lemma zzqx_shares_no_token: "shares_no_token ''zzqx''"
  by (simp add: shares_no_token_def DISEASE_DB_def analyze_def lower_def lower_char_def
        is_word_char_def)

lemma question_mark_shares_no_token: "shares_no_token ''?''"
  by (simp add: shares_no_token_def DISEASE_DB_def analyze_def lower_def lower_char_def
        is_word_char_def)

text \<open>
  Claim C8 (as amended). The matcher does not fail on user symptoms without a
  recognisable token, at any threshold: it returns a result, and every similarity
  between a user symptom that shares no token with the catalog (a string without any
  token included) and a reference symptom is 0. For every threshold greater than 0
  (the default 0.4 included) such a symptom contributes no match, so each score is at
  most the number of the other user symptoms, and when all user symptoms are of this
  kind every condition gets score 0 and no matched symptom.
\<close>

theorem unrecognized_symptoms_no_match:
  "\<exists>v res. fit (concat (map snd DISEASE_DB) @ user_symptoms) = Inr v \<and>
      match_symptoms user_symptoms threshold = Inr res \<and>
      (\<forall>us \<in> set user_symptoms. shares_no_token us \<longrightarrow>
         (\<forall>(d, symptoms) \<in> set DISEASE_DB.
            sims_row v symptoms us = replicate (length symptoms) 0)) \<and>
      (0 < threshold \<longrightarrow>
         list_all (\<lambda>(d, r). score r \<le>
                 int (length (filter (\<lambda>us. \<not> shares_no_token us) user_symptoms))) res \<and>
         ((\<forall>us \<in> set user_symptoms. shares_no_token us) \<longrightarrow>
            res = map (\<lambda>(d, symptoms). (d, \<lparr>score = 0, matched = []\<rparr>)) DISEASE_DB))"
proof -
  obtain v where v: "fit (concat (map snd DISEASE_DB) @ user_symptoms) = Inr v"
    using fit_catalog by blast
  define res where
    "res = map (\<lambda>(d, symptoms). (d, result_of v threshold user_symptoms symptoms)) DISEASE_DB"
  have m: "match_symptoms user_symptoms threshold = Inr res"
    unfolding res_def by (rule match_symptoms_eq [OF v])
  have sims: "\<forall>us \<in> set user_symptoms. shares_no_token us \<longrightarrow>
         (\<forall>(d, symptoms) \<in> set DISEASE_DB.
            sims_row v symptoms us = replicate (length symptoms) 0)"
    using sims_row_zero shares_no_tokenD by blast
  have no: "\<not> threshold \<le> max_sim_of v symptoms us"
    if "0 < threshold" "shares_no_token us" "(d, symptoms) \<in> set DISEASE_DB" for us d symptoms
    using shares_no_token_max_sim(1) [OF that(2,3)] that(1) by simp
  have "score (result_of v threshold user_symptoms symptoms) \<le>
          int (length (filter (\<lambda>us. \<not> shares_no_token us) user_symptoms))"
    if "0 < threshold" "(d, symptoms) \<in> set DISEASE_DB" for d symptoms
  proof -
    have "length (filter (\<lambda>us. threshold \<le> max_sim_of v symptoms us) user_symptoms)
        \<le> length (filter (\<lambda>us. \<not> shares_no_token us) user_symptoms)"
      by (rule length_filter_mono) (use no that in blast)
    then show ?thesis by (simp add: result_of_def)
  qed
  then have bound: "list_all (\<lambda>(d, r). score r \<le>
                 int (length (filter (\<lambda>us. \<not> shares_no_token us) user_symptoms))) res"
    if "0 < threshold"
    using that unfolding res_def by (auto simp: list_all_iff)
  have zero: "res = map (\<lambda>(d, symptoms). (d, \<lparr>score = 0, matched = []\<rparr>)) DISEASE_DB"
    if pos: "0 < threshold" and all: "\<forall>us \<in> set user_symptoms. shares_no_token us"
  proof -
    have "filter (\<lambda>us. threshold \<le> max_sim_of v symptoms us) user_symptoms = []"
      if "(d, symptoms) \<in> set DISEASE_DB" for d symptoms
      using no [OF pos] that all by (auto simp: filter_empty_conv)
    then have "result_of v threshold user_symptoms symptoms = \<lparr>score = 0, matched = []\<rparr>"
      if "(d, symptoms) \<in> set DISEASE_DB" for d symptoms
      using that by (simp add: result_of_def)
    then show ?thesis
      unfolding res_def by (intro map_cong) auto
  qed
  from v m sims bound zero show ?thesis by blast
qed

theorem unrecognized_symptoms_no_match_witness:
  "(0::real) < 2 / 5 \<and> shares_no_token ''zzqx'' \<and> shares_no_token ''?'' \<and>
   match_symptoms [''zzqx'', ''?''] (2 / 5) =
     Inr [(''Common Cold'', \<lparr>score = 0, matched = []\<rparr>),
          (''Influenza (Flu)'', \<lparr>score = 0, matched = []\<rparr>),
          (''COVID-19 (possible)'', \<lparr>score = 0, matched = []\<rparr>),
          (''Migraine'', \<lparr>score = 0, matched = []\<rparr>),
          (''General Headache'', \<lparr>score = 0, matched = []\<rparr>),
          (''Muscle or Body Pain'', \<lparr>score = 0, matched = []\<rparr>),
          (''Stomachache'', \<lparr>score = 0, matched = []\<rparr>),
          (''Urinary Tract Infection (UTI)'', \<lparr>score = 0, matched = []\<rparr>),
          (''Gastroenteritis / Food Poisoning'', \<lparr>score = 0, matched = []\<rparr>),
          (''Allergic Rhinitis (Allergy)'', \<lparr>score = 0, matched = []\<rparr>)]"
proof -
  have pos: "(0::real) < 2 / 5" by simp
  have all: "\<forall>us \<in> set [''zzqx'', ''?'']. shares_no_token us"
    using zzqx_shares_no_token question_mark_shares_no_token by simp
  have "match_symptoms [''zzqx'', ''?''] (2 / 5) =
      Inr (map (\<lambda>(d, symptoms). (d, \<lparr>score = 0, matched = []\<rparr>)) DISEASE_DB)"
    using unrecognized_symptoms_no_match [of "[''zzqx'', ''?'']" "2 / 5"] pos all by auto
  then show ?thesis
    using zzqx_shares_no_token question_mark_shares_no_token
    by (simp add: DISEASE_DB_def)
qed

text \<open>
  Counterexample to claim C8 as stated. At threshold 0 the user symptom "zzqx", which
  shares no token with the catalog, is counted as a match for every condition: its
  maximal similarity 0 reaches the threshold, and the first reference symptom is
  recorded as its match.
\<close>

theorem zero_threshold_counterexample:
  "match_symptoms [''zzqx''] 0 =
     Inr [(''Common Cold'', \<lparr>score = 1, matched = [''sneezing'']\<rparr>),
          (''Influenza (Flu)'', \<lparr>score = 1, matched = [''fever'']\<rparr>),
          (''COVID-19 (possible)'', \<lparr>score = 1, matched = [''fever'']\<rparr>),
          (''Migraine'', \<lparr>score = 1, matched = [''headache'']\<rparr>),
          (''General Headache'', \<lparr>score = 1, matched = [''mild headache'']\<rparr>),
          (''Muscle or Body Pain'', \<lparr>score = 1, matched = [''muscle pain'']\<rparr>),
          (''Stomachache'', \<lparr>score = 1, matched = [''stomach pain'']\<rparr>),
          (''Urinary Tract Infection (UTI)'', \<lparr>score = 1, matched = [''painful urination'']\<rparr>),
          (''Gastroenteritis / Food Poisoning'', \<lparr>score = 1, matched = [''nausea'']\<rparr>),
          (''Allergic Rhinitis (Allergy)'', \<lparr>score = 1, matched = [''sneezing'']\<rparr>)]"
proof -
  obtain v where v: "fit (concat (map snd DISEASE_DB) @ [''zzqx'']) = Inr v"
    using fit_catalog by blast
  have "result_of v 0 [''zzqx''] symptoms = \<lparr>score = 1, matched = [hd symptoms]\<rparr>"
    if "(d, symptoms) \<in> set DISEASE_DB" for d symptoms
    using shares_no_token_max_sim [OF zzqx_shares_no_token that]
    by (simp add: result_of_def)
  then have "map (\<lambda>(d, symptoms). (d, result_of v 0 [''zzqx''] symptoms)) DISEASE_DB =
      map (\<lambda>(d, symptoms). (d, \<lparr>score = 1, matched = [hd symptoms]\<rparr>)) DISEASE_DB"
    by (intro map_cong) auto
  then have "match_symptoms [''zzqx''] 0 =
      Inr (map (\<lambda>(d, symptoms). (d, \<lparr>score = 1, matched = [hd symptoms]\<rparr>)) DISEASE_DB)"
    using match_symptoms_eq [OF v] by simp
  then show ?thesis by (simp add: DISEASE_DB_def)
qed

end
